theory Spec2Isabelle
  imports Main
begin

section \<open>Boolean search: the query parser and the tree evaluator\<close>

text \<open>
  A shallow embedding of \<^verbatim>\<open>hw_boolean_search.py\<close>: the tokenizer and the
  operator-stack parser of \<^verbatim>\<open>parse_query\<close>, the lookups of \<^verbatim>\<open>Index\<close> and
  \<^verbatim>\<open>QueryTree.evaluate_tree\<close>.

  A Python \<^verbatim>\<open>str\<close> is a \<open>string\<close>; a character is read as its code point, so the
  model covers the queries whose code points are below 256. A Python list is a HOL
  list in the same order: \<^verbatim>\<open>append\<close> adds at the end, \<^verbatim>\<open>pop\<close> removes the last
  element and \<^verbatim>\<open>xs[-1]\<close> reads it. Every exception the code can raise is a value of
  \<open>error\<close>, returned as \<open>Inl\<close>.
\<close>

subsection \<open>Errors and values\<close>

datatype error = IndexError | KeyError | TypeError

text \<open>
  What \<^verbatim>\<open>evaluate_tree\<close> can return: a set of document ids, or \<^verbatim>\<open>None\<close> when
  control falls off the end of the function.
\<close>

datatype 'd pyvalue = NoneV | SetV "'d set"

subsection \<open>\<^verbatim>\<open>class BooleanNode\<close>\<close>

text \<open>
  \<^verbatim>\<open>BooleanNode(value, left=None, right=None)\<close>: the children are nodes or
  \<^verbatim>\<open>None\<close>.
\<close>

datatype BooleanNode =
  BooleanNode (node_value: string) (node_left: "BooleanNode option")
    (node_right: "BooleanNode option")

subsection \<open>\<^verbatim>\<open>str.isalnum\<close> and the operand test\<close>

text \<open>
  \<^verbatim>\<open>c.isalnum()\<close> for one character with a code point below 256: the ASCII digits
  and letters, and the Latin-1 characters that Unicode classifies as letters or as
  numeric (feminine and masculine ordinal, micro sign, superscript one, two and three,
  the three vulgar fractions, and the accented letters, which leave out the
  multiplication and the division sign).
\<close>

definition char_isalnum :: "char \<Rightarrow> bool" where
  "char_isalnum c =
     (let n = (of_char c :: nat) in
        (48 \<le> n \<and> n \<le> 57) \<or> (65 \<le> n \<and> n \<le> 90) \<or> (97 \<le> n \<and> n \<le> 122) \<or>
        n = 170 \<or> n = 178 \<or> n = 179 \<or> n = 181 \<or> n = 185 \<or> n = 186 \<or>
        (188 \<le> n \<and> n \<le> 190) \<or> (192 \<le> n \<and> n \<le> 214) \<or>
        (216 \<le> n \<and> n \<le> 246) \<or> (248 \<le> n \<and> n \<le> 255))"

text \<open>\<^verbatim>\<open>s.isalnum()\<close>: at least one character, and every character alphanumeric.\<close>

definition isalnum :: "string \<Rightarrow> bool" where
  "isalnum s = (s \<noteq> [] \<and> list_all char_isalnum s)"

text \<open>
  The test of lines 60 and 121, \<^verbatim>\<open>token.isalnum() or "_" in token\<close>, which decides
  that a token, or the value of a node, is a term.
\<close>

definition is_operand :: "string \<Rightarrow> bool" where
  "is_operand token = (isalnum token \<or> CHR ''_'' \<in> set token)"

subsection \<open>\<^verbatim>\<open>tokenize\<close>\<close>

text \<open>
  The \<^verbatim>\<open>for char in query\<close> loop of lines 30 to 37, on the rest of the query, with the
  list \<^verbatim>\<open>tokens\<close> and the string \<^verbatim>\<open>token\<close> as they stand.
\<close>

fun tokenize_loop :: "string \<Rightarrow> string list \<Rightarrow> string \<Rightarrow> string list \<times> string" where
  "tokenize_loop [] tokens token = (tokens, token)"
| "tokenize_loop (char # query) tokens token =
     (if char \<in> set ''() |!'' then
        (if token \<noteq> [] then tokenize_loop query ((tokens @ [token]) @ [[char]]) []
         else tokenize_loop query (tokens @ [[char]]) token)
      else tokenize_loop query tokens (token @ [char]))"

definition tokenize :: "string \<Rightarrow> string list" where
  "tokenize query =
     (case tokenize_loop query [] [] of
        (tokens, token) \<Rightarrow> if token \<noteq> [] then tokens @ [token] else tokens)"

subsection \<open>\<^verbatim>\<open>parse\<close>\<close>

text \<open>\<^verbatim>\<open>xs.pop()\<close>: the last element and the list without it; IndexError on \<open>[]\<close>.\<close>

definition pop :: "'a list \<Rightarrow> error + ('a \<times> 'a list)" where
  "pop xs = (if xs = [] then Inl IndexError else Inr (last xs, butlast xs))"

text \<open>The state of \<^verbatim>\<open>parse\<close>: the lists \<^verbatim>\<open>stack\<close> and \<^verbatim>\<open>operators\<close>.\<close>

type_synonym pstate = "BooleanNode list \<times> string list"

text \<open>\<^verbatim>\<open>apply_operator\<close>, lines 47 to 55.\<close>

definition apply_operator :: "pstate \<Rightarrow> error + pstate" where
  "apply_operator st =
     (case st of (stack, operators) \<Rightarrow>
        (case pop operators of
           Inl e \<Rightarrow> Inl e
         | Inr (operator, operators1) \<Rightarrow>
             if operator = ''!'' then
               (case pop stack of
                  Inl e \<Rightarrow> Inl e
                | Inr (operand, stack1) \<Rightarrow>
                    Inr (stack1 @ [BooleanNode operator (Some operand) None], operators1))
             else
               (case pop stack of
                  Inl e \<Rightarrow> Inl e
                | Inr (right, stack1) \<Rightarrow>
                    (case pop stack1 of
                       Inl e \<Rightarrow> Inl e
                     | Inr (left, stack2) \<Rightarrow>
                         Inr (stack2 @ [BooleanNode operator (Some left) (Some right)],
                              operators1)))))"

text \<open>\<^verbatim>\<open>precedence = {'!': 3, ' ': 2, '|': 1}\<close>, line 57; a lookup of another key raises KeyError.\<close>

definition precedence :: "string \<rightharpoonup> nat" where
  "precedence = [''!'' \<mapsto> 3, '' '' \<mapsto> 2, ''|'' \<mapsto> 1]"

lemma apply_operator_shorter:
  "apply_operator (stack, operators) = Inr (stack', operators') \<Longrightarrow>
   length operators' < length operators"
  by (auto simp: apply_operator_def pop_def split: if_splits sum.splits prod.splits)

text \<open>
  Lines 65 and 66: \<^verbatim>\<open>while operators and operators[-1] != '(': apply_operator()\<close>.
\<close>

function while_not_paren :: "pstate \<Rightarrow> error + pstate" where
  "while_not_paren (stack, operators) =
     (if operators \<noteq> [] \<and> last operators \<noteq> ''('' then
        (case apply_operator (stack, operators) of
           Inl e \<Rightarrow> Inl e
         | Inr st \<Rightarrow> while_not_paren st)
      else Inr (stack, operators))"
  by pat_completeness auto
termination
  by (relation "measure (\<lambda>(stack, operators). length operators)")
     (auto dest: apply_operator_shorter)

text \<open>
  Lines 69 to 71: the loop of an operator token. The condition reads
  \<^verbatim>\<open>precedence[operators[-1]]\<close> and then \<^verbatim>\<open>precedence[token]\<close>, and either lookup
  raises KeyError on a string that is not a key.
\<close>

function while_precedence :: "string \<Rightarrow> pstate \<Rightarrow> error + pstate" where
  "while_precedence token (stack, operators) =
     (if operators \<noteq> [] \<and> last operators \<noteq> ''('' then
        (case precedence (last operators) of
           None \<Rightarrow> Inl KeyError
         | Some p \<Rightarrow>
             (case precedence token of
                None \<Rightarrow> Inl KeyError
              | Some q \<Rightarrow>
                  if p \<ge> q then
                    (case apply_operator (stack, operators) of
                       Inl e \<Rightarrow> Inl e
                     | Inr st \<Rightarrow> while_precedence token st)
                  else Inr (stack, operators)))
      else Inr (stack, operators))"
  by pat_completeness auto
termination
  by (relation "measure (\<lambda>(token, stack, operators). length operators)")
     (auto dest: apply_operator_shorter)

text \<open>Lines 74 and 75: \<^verbatim>\<open>while operators: apply_operator()\<close>.\<close>

function while_operators :: "pstate \<Rightarrow> error + pstate" where
  "while_operators (stack, operators) =
     (if operators \<noteq> [] then
        (case apply_operator (stack, operators) of
           Inl e \<Rightarrow> Inl e
         | Inr st \<Rightarrow> while_operators st)
      else Inr (stack, operators))"
  by pat_completeness auto
termination
  by (relation "measure (\<lambda>(stack, operators). length operators)")
     (auto dest: apply_operator_shorter)

text \<open>The body of the \<^verbatim>\<open>for token in tokens\<close> loop, lines 60 to 72.\<close>

definition parse_token :: "string \<Rightarrow> pstate \<Rightarrow> error + pstate" where
  "parse_token token st =
     (case st of (stack, operators) \<Rightarrow>
        if isalnum token \<or> CHR ''_'' \<in> set token then
          Inr (stack @ [BooleanNode token None None], operators)
        else if token = ''('' then
          Inr (stack, operators @ [token])
        else if token = '')'' then
          (case while_not_paren (stack, operators) of
             Inl e \<Rightarrow> Inl e
           | Inr (stack1, operators1) \<Rightarrow>
               (case pop operators1 of
                  Inl e \<Rightarrow> Inl e
                | Inr (paren, operators2) \<Rightarrow> Inr (stack1, operators2)))
        else
          (case while_precedence token (stack, operators) of
             Inl e \<Rightarrow> Inl e
           | Inr (stack1, operators1) \<Rightarrow> Inr (stack1, operators1 @ [token])))"

fun for_tokens :: "string list \<Rightarrow> pstate \<Rightarrow> error + pstate" where
  "for_tokens [] st = Inr st"
| "for_tokens (token # tokens) st =
     (case parse_token token st of
        Inl e \<Rightarrow> Inl e
      | Inr st1 \<Rightarrow> for_tokens tokens st1)"

text \<open>
  \<^verbatim>\<open>parse\<close>: both lists start empty; after the loops, \<^verbatim>\<open>stack[0]\<close> is the first
  element of the stack, whatever else is on it, and raises IndexError on an empty stack.
\<close>

definition parse :: "string list \<Rightarrow> error + BooleanNode" where
  "parse tokens =
     (case for_tokens tokens ([], []) of
        Inl e \<Rightarrow> Inl e
      | Inr st \<Rightarrow>
          (case while_operators st of
             Inl e \<Rightarrow> Inl e
           | Inr (stack, operators) \<Rightarrow>
               (case stack of [] \<Rightarrow> Inl IndexError | root # rest \<Rightarrow> Inr root)))"

definition parse_query :: "string \<Rightarrow> error + BooleanNode" where
  "parse_query query = parse (tokenize query)"

subsection \<open>\<^verbatim>\<open>class Index\<close>\<close>

text \<open>
  The dictionary \<^verbatim>\<open>inverted_index\<close> from a word to its set of document ids. The
  constructor, which reads the documents from a file, is not modelled: an index is
  any such dictionary.
\<close>

record 'd Index =
  inverted_index :: "string \<rightharpoonup> 'd set"

definition Index_get :: "'d Index \<Rightarrow> string \<Rightarrow> 'd set \<Rightarrow> 'd set" where
  "Index_get index key dflt =
     (case inverted_index index key of None \<Rightarrow> dflt | Some postings \<Rightarrow> postings)"

definition Index_values :: "'d Index \<Rightarrow> 'd set set" where
  "Index_values index = ran (inverted_index index)"

subsection \<open>\<^verbatim>\<open>class QueryTree\<close>\<close>

text \<open>
  The set operators of lines 126, 129 and 133. The left operand of \<open>-\<close> is always the
  set \<^verbatim>\<open>all_docs\<close>; an operand that is \<^verbatim>\<open>None\<close> raises TypeError.
\<close>

fun set_minus :: "'d set \<Rightarrow> 'd pyvalue \<Rightarrow> error + 'd pyvalue" where
  "set_minus a (SetV b) = Inr (SetV (a - b))"
| "set_minus a NoneV = Inl TypeError"

fun set_and :: "'d pyvalue \<Rightarrow> 'd pyvalue \<Rightarrow> error + 'd pyvalue" where
  "set_and (SetV a) (SetV b) = Inr (SetV (a \<inter> b))"
| "set_and a b = Inl TypeError"

fun set_or :: "'d pyvalue \<Rightarrow> 'd pyvalue \<Rightarrow> error + 'd pyvalue" where
  "set_or (SetV a) (SetV b) = Inr (SetV (a \<union> b))"
| "set_or a b = Inl TypeError"

text \<open>
  \<^verbatim>\<open>evaluate_tree\<close>, lines 118 to 134. The chain of \<^verbatim>\<open>if\<close>s keeps its order, and a
  value that passes none of them falls off the end: the function returns \<^verbatim>\<open>None\<close>.
\<close>

fun evaluate_tree :: "BooleanNode option \<Rightarrow> 'd Index \<Rightarrow> error + 'd pyvalue" where
  "evaluate_tree None document_index = Inr (SetV {})"
| "evaluate_tree (Some (BooleanNode v l r)) document_index =
     (if isalnum v \<or> CHR ''_'' \<in> set v then
        Inr (SetV (Index_get document_index v {}))
      else if v = ''!'' then
        (let all_docs = \<Union> (Index_values document_index) in
           case evaluate_tree l document_index of
             Inl e \<Rightarrow> Inl e
           | Inr child \<Rightarrow> set_minus all_docs child)
      else if v = '' '' then
        (case evaluate_tree l document_index of
           Inl e \<Rightarrow> Inl e
         | Inr a \<Rightarrow>
             (case evaluate_tree r document_index of
                Inl e \<Rightarrow> Inl e
              | Inr b \<Rightarrow> set_and a b))
      else if v = ''|'' then
        (case evaluate_tree l document_index of
           Inl e \<Rightarrow> Inl e
         | Inr a \<Rightarrow>
             (case evaluate_tree r document_index of
                Inl e \<Rightarrow> Inl e
              | Inr b \<Rightarrow> set_or a b))
      else Inr NoneV)"

text \<open>A query: its id and its tree. The constructor parses, and raises what the parser raises.\<close>

record QueryTree =
  qid :: int
  tree :: BooleanNode

definition QueryTree_init :: "int \<Rightarrow> string \<Rightarrow> error + QueryTree" where
  "QueryTree_init q query =
     (case parse_query query of
        Inl e \<Rightarrow> Inl e
      | Inr t \<Rightarrow> Inr \<lparr>qid = q, tree = t\<rparr>)"

definition search :: "QueryTree \<Rightarrow> 'd Index \<Rightarrow> error + (int \<times> 'd pyvalue)" where
  "search self index =
     (case evaluate_tree (Some (tree self)) index of
        Inl e \<Rightarrow> Inl e
      | Inr found \<Rightarrow> Inr (qid self, found))"

text \<open>
  What \<^verbatim>\<open>main\<close> does with one line of the queries file, lines 181 to 184: build the
  query tree, then search the index.
\<close>

definition run_query :: "int \<Rightarrow> string \<Rightarrow> 'd Index \<Rightarrow> error + (int \<times> 'd pyvalue)" where
  "run_query q query index =
     (case QueryTree_init q query of
        Inl e \<Rightarrow> Inl e
      | Inr query_tree \<Rightarrow> search query_tree index)"

subsection \<open>Predicates used to state the properties\<close>

text \<open>The five characters that \<^verbatim>\<open>tokenize\<close> emits as tokens of their own, line 31.\<close>

abbreviation specials :: "char set" where
  "specials \<equiv> set ''() |!''"

text \<open>
  A term as it can stand in a query: a string with none of the five characters that
  passes the operand test of line 60.
\<close>

definition is_term :: "string \<Rightarrow> bool" where
  "is_term t = (is_operand t \<and> list_all (\<lambda>c. c \<notin> specials) t)"

text \<open>
  An expression tree: \<^verbatim>\<open>None\<close>, or a node whose value passes the operand test (a
  term), or a node \<^verbatim>\<open>'!'\<close> over an expression tree, or a node \<^verbatim>\<open>' '\<close> or
  \<^verbatim>\<open>'|'\<close> over two expression trees.
\<close>

fun expression_tree :: "BooleanNode option \<Rightarrow> bool" where
  "expression_tree None = True"
| "expression_tree (Some (BooleanNode v l r)) =
     (is_operand v \<or>
      (v = ''!'' \<and> expression_tree l) \<or>
      ((v = '' '' \<or> v = ''|'') \<and> expression_tree l \<and> expression_tree r))"

section \<open>Auxiliary facts\<close>

subsection \<open>The tokenizer on terms and on the five characters\<close>

lemma is_term_nonempty: "is_term t \<Longrightarrow> t \<noteq> []"
  by (auto simp: is_term_def is_operand_def isalnum_def)

lemma tokenize_loop_run:
  "list_all (\<lambda>c. c \<notin> specials) t \<Longrightarrow>
   tokenize_loop (t @ rest) tokens token = tokenize_loop rest tokens (token @ t)"
  by (induction t arbitrary: token) simp_all

lemma tokenize_loop_term:
  "is_term t \<Longrightarrow>
   tokenize_loop (t @ rest) tokens [] = tokenize_loop rest tokens t"
  using tokenize_loop_run [of t rest tokens "[]"] by (simp add: is_term_def)

lemma tokenize_loop_special:
  "c \<in> specials \<Longrightarrow> token \<noteq> [] \<Longrightarrow>
   tokenize_loop (c # rest) tokens token = tokenize_loop rest (tokens @ [token, [c]]) []"
  by simp

lemma parse_token_operand:
  "is_operand t \<Longrightarrow>
   parse_token t (stack, operators) = Inr (stack @ [BooleanNode t None None], operators)"
  by (simp add: parse_token_def is_operand_def)

lemma not_operand_ops [simp]:
  "\<not> is_operand '' ''" "\<not> is_operand ''|''" "\<not> is_operand ''!''"
  "\<not> is_operand ''(''" "\<not> is_operand '')''"
  by (simp_all add: is_operand_def isalnum_def char_isalnum_def)

lemma tokenize_a_b_or_c:
  assumes "is_term a" "is_term b" "is_term c"
  shows "tokenize (a @ '' '' @ b @ ''|'' @ c) = [a, '' '', b, ''|'', c]"
proof -
  have ne: "a \<noteq> []" "b \<noteq> []" "c \<noteq> []"
    using assms by (auto dest: is_term_nonempty)
  have "tokenize_loop (a @ '' '' @ b @ ''|'' @ c) [] [] = ([a, '' '', b, ''|''], c)"
    using ne assms tokenize_loop_term [of c "[]"]
    by (simp add: tokenize_loop_term del: tokenize_loop.simps(2) add: tokenize_loop_special)
  then show ?thesis using ne by (simp add: tokenize_def)
qed

subsection \<open>The parser, one token at a time\<close>

lemma while_precedence_empty [simp]: "while_precedence token (stack, []) = Inr (stack, [])"
  by simp

lemma parse_token_space:
  "parse_token '' '' (stack, operators) =
     (case while_precedence '' '' (stack, operators) of
        Inl e \<Rightarrow> Inl e
      | Inr (stack1, operators1) \<Rightarrow> Inr (stack1, operators1 @ ['' '']))"
  by (simp add: parse_token_def isalnum_def char_isalnum_def)

lemma parse_token_bar:
  "parse_token ''|'' (stack, operators) =
     (case while_precedence ''|'' (stack, operators) of
        Inl e \<Rightarrow> Inl e
      | Inr (stack1, operators1) \<Rightarrow> Inr (stack1, operators1 @ [''|'']))"
  by (simp add: parse_token_def isalnum_def char_isalnum_def)

lemma parse_token_bang:
  "parse_token ''!'' (stack, operators) =
     (case while_precedence ''!'' (stack, operators) of
        Inl e \<Rightarrow> Inl e
      | Inr (stack1, operators1) \<Rightarrow> Inr (stack1, operators1 @ [''!'']))"
  by (simp add: parse_token_def isalnum_def char_isalnum_def)

lemma parse_token_open:
  "parse_token ''('' (stack, operators) = Inr (stack, operators @ [''(''])"
  by (simp add: parse_token_def isalnum_def char_isalnum_def)

lemma parse_token_close:
  "parse_token '')'' (stack, operators) =
     (case while_not_paren (stack, operators) of
        Inl e \<Rightarrow> Inl e
      | Inr (stack1, operators1) \<Rightarrow>
          (case pop operators1 of
             Inl e \<Rightarrow> Inl e
           | Inr (paren, operators2) \<Rightarrow> Inr (stack1, operators2)))"
  by (simp add: parse_token_def isalnum_def char_isalnum_def)

lemmas parse_simps =
  parse_def parse_token_operand parse_token_space parse_token_bar parse_token_bang
  parse_token_open parse_token_close apply_operator_def pop_def precedence_def

lemma parse_a_b_or_c:
  assumes "is_operand a" "is_operand b" "is_operand c"
  shows "parse [a, '' '', b, ''|'', c] =
    Inr (BooleanNode ''|''
          (Some (BooleanNode '' '' (Some (BooleanNode a None None))
                                   (Some (BooleanNode b None None))))
          (Some (BooleanNode c None None)))"
  using assms by (simp add: parse_simps)

subsection \<open>The evaluator, one kind of node at a time\<close>

lemma evaluate_tree_operand:
  "is_operand v \<Longrightarrow>
   evaluate_tree (Some (BooleanNode v l r)) index = Inr (SetV (Index_get index v {}))"
  by (simp add: is_operand_def)

lemma evaluate_tree_not:
  "evaluate_tree (Some (BooleanNode ''!'' l r)) index =
     (case evaluate_tree l index of
        Inl e \<Rightarrow> Inl e
      | Inr child \<Rightarrow> set_minus (\<Union> (Index_values index)) child)"
  by (simp add: isalnum_def char_isalnum_def)

lemma evaluate_tree_and:
  "evaluate_tree (Some (BooleanNode '' '' l r)) index =
     (case evaluate_tree l index of
        Inl e \<Rightarrow> Inl e
      | Inr a \<Rightarrow>
          (case evaluate_tree r index of
             Inl e \<Rightarrow> Inl e
           | Inr b \<Rightarrow> set_and a b))"
  by (simp add: isalnum_def char_isalnum_def)

lemma evaluate_tree_or:
  "evaluate_tree (Some (BooleanNode ''|'' l r)) index =
     (case evaluate_tree l index of
        Inl e \<Rightarrow> Inl e
      | Inr a \<Rightarrow>
          (case evaluate_tree r index of
             Inl e \<Rightarrow> Inl e
           | Inr b \<Rightarrow> set_or a b))"
  by (simp add: isalnum_def char_isalnum_def)

lemmas evaluate_simps =
  evaluate_tree_operand evaluate_tree_not evaluate_tree_and evaluate_tree_or

declare evaluate_tree.simps(2) [simp del]

subsection \<open>Expression trees evaluate to subsets of the universe\<close>

lemma Index_get_subset: "Index_get index v {} \<subseteq> \<Union> (Index_values index)"
  by (auto simp: Index_get_def Index_values_def ran_def split: option.splits)

lemma evaluate_expression_tree:
  "expression_tree t \<Longrightarrow>
   \<exists>s. evaluate_tree t index = Inr (SetV s) \<and> s \<subseteq> \<Union> (Index_values index)"
proof (induction t rule: expression_tree.induct)
  case 1
  show ?case by simp
next
  case (2 v l r)
  show ?case
  proof (cases "is_operand v")
    case True
    then show ?thesis by (simp add: evaluate_tree_operand Index_get_subset)
  next
    case False
    then consider (neg) "v = ''!''" "expression_tree l"
      | (conj) "v = '' ''" "expression_tree l" "expression_tree r"
      | (disj) "v = ''|''" "expression_tree l" "expression_tree r"
      using "2.prems" by auto
    then show ?thesis
    proof cases
      case neg
      with "2.IH"(1) obtain s where "evaluate_tree l index = Inr (SetV s)" by blast
      then show ?thesis using neg by (auto simp: evaluate_tree_not)
    next
      case conj
      with "2.IH" obtain a b where
        "evaluate_tree l index = Inr (SetV a)" "a \<subseteq> \<Union> (Index_values index)"
        "evaluate_tree r index = Inr (SetV b)"
        by blast
      then show ?thesis using conj by (auto simp: evaluate_tree_and)
    next
      case disj
      with "2.IH" obtain a b where
        "evaluate_tree l index = Inr (SetV a)" "a \<subseteq> \<Union> (Index_values index)"
        "evaluate_tree r index = Inr (SetV b)" "b \<subseteq> \<Union> (Index_values index)"
        by blast
      then show ?thesis using disj by (auto simp: evaluate_tree_or)
    qed
  qed
qed

text \<open>
  Two nested \<^verbatim>\<open>'!'\<close> nodes over an expression tree return what the tree returns,
  intersected with the universe.
\<close>

lemma evaluate_not_not:
  assumes "expression_tree x"
  shows "\<exists>s. evaluate_tree x index = Inr (SetV s) \<and>
    evaluate_tree (Some (BooleanNode ''!'' (Some (BooleanNode ''!'' x r1)) r2)) index =
      Inr (SetV (s \<inter> \<Union> (Index_values index)))"
proof -
  from evaluate_expression_tree [OF assms, of index]
  obtain s where s: "evaluate_tree x index = Inr (SetV s)" by blast
  have "\<And>U :: 'a set. U - (U - s) = s \<inter> U" by blast
  with s show ?thesis by (simp add: evaluate_tree_not)
qed

subsection \<open>Tokenizing and parsing queries built from terms\<close>

lemma tokenize_loop_term_end:
  "is_term t \<Longrightarrow> tokenize_loop t tokens [] = (tokens, t)"
  using tokenize_loop_term [of t "[]" tokens] by simp

lemma tokenize_loop_special_first:
  "c \<in> specials \<Longrightarrow>
   tokenize_loop (c # rest) tokens [] = tokenize_loop rest (tokens @ [[c]]) []"
  by simp

lemmas tokenize_simps =
  tokenize_loop_term tokenize_loop_term_end tokenize_loop_special tokenize_loop_special_first
  is_term_nonempty

lemma is_term_operand: "is_term t \<Longrightarrow> is_operand t"
  by (simp add: is_term_def)

lemma parse_query_and:
  assumes "is_term a" "is_term b"
  shows "parse_query (a @ '' '' @ b) =
    Inr (BooleanNode '' '' (Some (BooleanNode a None None)) (Some (BooleanNode b None None)))"
proof -
  have "tokenize_loop (a @ '' '' @ b) [] [] = ([a, '' ''], b)"
    using assms by (simp add: tokenize_simps del: tokenize_loop.simps(2))
  then have "tokenize (a @ '' '' @ b) = [a, '' '', b]"
    using assms by (simp add: tokenize_def is_term_nonempty)
  then show ?thesis
    using assms by (simp add: parse_query_def parse_simps is_term_operand)
qed

subsection \<open>Queries for De Morgan's laws, and running a query\<close>

lemmas char_defs = is_operand_def isalnum_def char_isalnum_def

lemma tokenize_not_and:
  assumes "is_term a" "is_term b"
  shows "tokenize (''!('' @ a @ '' '' @ b @ '')'') = [''!'', ''('', a, '' '', b, '')'']"
proof -
  have "tokenize_loop (''!('' @ a @ '' '' @ b @ '')'') [] [] =
        ([''!'', ''('', a, '' '', b, '')''], [])"
    using assms by (simp add: tokenize_simps del: tokenize_loop.simps(2))
  then show ?thesis by (simp add: tokenize_def)
qed

lemma tokenize_not_or:
  assumes "is_term a" "is_term b"
  shows "tokenize (''!('' @ a @ ''|'' @ b @ '')'') = [''!'', ''('', a, ''|'', b, '')'']"
proof -
  have "tokenize_loop (''!('' @ a @ ''|'' @ b @ '')'') [] [] =
        ([''!'', ''('', a, ''|'', b, '')''], [])"
    using assms by (simp add: tokenize_simps del: tokenize_loop.simps(2))
  then show ?thesis by (simp add: tokenize_def)
qed

lemma tokenize_or_nots:
  assumes "is_term a" "is_term b"
  shows "tokenize (''!'' @ a @ ''|!'' @ b) = [''!'', a, ''|'', ''!'', b]"
proof -
  have "tokenize_loop (''!'' @ a @ ''|!'' @ b) [] [] = ([''!'', a, ''|'', ''!''], b)"
    using assms by (simp add: tokenize_simps del: tokenize_loop.simps(2))
  then show ?thesis using assms by (simp add: tokenize_def is_term_nonempty)
qed

lemma tokenize_and_nots:
  assumes "is_term a" "is_term b"
  shows "tokenize (''!'' @ a @ '' !'' @ b) = [''!'', a, '' '', ''!'', b]"
proof -
  have "tokenize_loop (''!'' @ a @ '' !'' @ b) [] [] = ([''!'', a, '' '', ''!''], b)"
    using assms by (simp add: tokenize_simps del: tokenize_loop.simps(2))
  then show ?thesis using assms by (simp add: tokenize_def is_term_nonempty)
qed

lemma run_query_failed:
  "parse_query query = Inl e \<Longrightarrow> run_query q query index = Inl e"
  by (simp add: run_query_def QueryTree_init_def)

lemma run_query_found:
  "parse_query query = Inr t \<Longrightarrow> evaluate_tree (Some t) index = Inr found \<Longrightarrow>
   run_query q query index = Inr (q, found)"
  by (simp add: run_query_def QueryTree_init_def search_def)

subsection \<open>The tokenizer on arbitrary queries\<close>

lemma tokenize_loop_append:
  "tokenize_loop (xs @ ys) tokens token =
     (case tokenize_loop xs tokens token of (tokens1, token1) \<Rightarrow> tokenize_loop ys tokens1 token1)"
  by (induction xs arbitrary: tokens token) simp_all

lemma tokenize_loop_prefix:
  "tokenize_loop query (before @ tokens) token =
     (case tokenize_loop query tokens token of (tokens1, token1) \<Rightarrow> (before @ tokens1, token1))"
  by (induction query arbitrary: tokens token) simp_all

lemma tokenize_loop_ends_special:
  assumes "pre = [] \<or> last pre \<in> specials"
  shows "tokenize_loop pre [] [] = (tokenize pre, [])"
proof (cases "pre = []")
  case True
  then show ?thesis by (simp add: tokenize_def)
next
  case False
  then obtain p c where pre: "pre = p @ [c]" and c: "c \<in> specials"
    using assms by (metis append_butlast_last_id)
  obtain ts k where l: "tokenize_loop p [] [] = (ts, k)"
    by (cases "tokenize_loop p [] []")
  have "snd (tokenize_loop pre [] []) = []"
    using c by (simp add: pre tokenize_loop_append l)
  then show ?thesis
    by (cases "tokenize_loop pre [] []") (simp add: tokenize_def)
qed

lemma tokenize_loop_flush:
  assumes "post = [] \<or> hd post \<in> specials" "t \<noteq> []"
  shows "(case tokenize_loop post tokens t of (tokens1, token1) \<Rightarrow>
            if token1 \<noteq> [] then tokens1 @ [token1] else tokens1) =
         tokens @ [t] @ tokenize post"
proof (cases post)
  case Nil
  then show ?thesis using assms by (simp add: tokenize_def)
next
  case (Cons c rest)
  then have c: "c \<in> specials" using assms by simp
  have "tokenize_loop post tokens t = tokenize_loop rest ((tokens @ [t]) @ [[c]]) []"
    using c assms(2) by (simp add: Cons)
  also have "\<dots> = (case tokenize_loop rest [[c]] [] of
                      (tokens1, token1) \<Rightarrow> ((tokens @ [t]) @ tokens1, token1))"
    by (rule tokenize_loop_prefix)
  finally have a: "tokenize_loop post tokens t =
      (case tokenize_loop rest [[c]] [] of
         (tokens1, token1) \<Rightarrow> ((tokens @ [t]) @ tokens1, token1))" .
  have b: "tokenize_loop post [] [] = tokenize_loop rest [[c]] []"
    using c by (simp add: Cons)
  show ?thesis
    by (simp add: a tokenize_def b split: prod.splits)
qed

lemma tokenize_run:
  assumes "t \<noteq> []" "list_all (\<lambda>c. c \<notin> specials) t"
    and "pre = [] \<or> last pre \<in> specials" "post = [] \<or> hd post \<in> specials"
  shows "tokenize (pre @ t @ post) = tokenize pre @ [t] @ tokenize post"
proof -
  have "tokenize_loop (pre @ t @ post) [] [] = tokenize_loop (t @ post) (tokenize pre) []"
    by (simp add: tokenize_loop_append [of pre] tokenize_loop_ends_special [OF assms(3)])
  also have "\<dots> = tokenize_loop post (tokenize pre) t"
    using tokenize_loop_run [OF assms(2), of post "tokenize pre" "[]"] by simp
  finally have "tokenize (pre @ t @ post) =
      (case tokenize_loop post (tokenize pre) t of (tokens1, token1) \<Rightarrow>
            if token1 \<noteq> [] then tokens1 @ [token1] else tokens1)"
    by (simp add: tokenize_def)
  then show ?thesis
    by (simp only: tokenize_loop_flush [OF assms(4) assms(1)])
qed

lemma tokenize_loop_spaces:
  "CHR '' '' \<notin> set token \<Longrightarrow>
   (case tokenize_loop query tokens token of (tokens1, token1) \<Rightarrow>
      length (filter (\<lambda>t. t = '' '') tokens1) =
        length (filter (\<lambda>t. t = '' '') tokens) + length (filter (\<lambda>c. c = CHR '' '') query) \<and>
      CHR '' '' \<notin> set token1)"
proof (induction query arbitrary: tokens token)
  case Nil
  then show ?case by simp
next
  case (Cons c query)
  have t: "token \<noteq> '' ''" using Cons.prems by auto
  show ?case
  proof (cases "c \<in> specials")
    case True
    show ?thesis
    proof (cases "token = []")
      case True
      with \<open>c \<in> specials\<close> Cons.IH [where token = "[]" and tokens = "tokens @ [[c]]"] show ?thesis
        by (auto split: prod.splits)
    next
      case False
      with \<open>c \<in> specials\<close> t Cons.IH [where token = "[]" and tokens = "(tokens @ [token]) @ [[c]]"] show ?thesis
        by (auto split: prod.splits)
    qed
  next
    case False
    then have "CHR '' '' \<notin> set (token @ [c])" using Cons.prems by auto
    with False Cons.IH [where token = "token @ [c]" and tokens = tokens] show ?thesis
      by (auto split: prod.splits)
  qed
qed

lemma tokenize_spaces:
  "length (filter (\<lambda>t. t = '' '') (tokenize query)) =
   length (filter (\<lambda>c. c = CHR '' '') query)"
proof -
  obtain ts k where l: "tokenize_loop query [] [] = (ts, k)"
    by (cases "tokenize_loop query [] []")
  with tokenize_loop_spaces [where token = "[]" and query = query and tokens = "[]"]
  have "length (filter (\<lambda>t. t = '' '') ts) = length (filter (\<lambda>c. c = CHR '' '') query)"
    and "CHR '' '' \<notin> set k"
    by simp_all
  then show ?thesis
    by (auto simp: tokenize_def l)
qed

subsection \<open>The errors of the parser\<close>

lemma pop_error: "pop xs = Inl e \<Longrightarrow> e = IndexError"
  by (simp add: pop_def split: if_splits)

lemma apply_operator_error: "apply_operator st = Inl e \<Longrightarrow> e = IndexError"
  by (auto simp: apply_operator_def split: prod.splits sum.splits if_splits dest: pop_error)

lemma while_not_paren_error: "while_not_paren st = Inl e \<Longrightarrow> e = IndexError"
proof (induction st rule: while_not_paren.induct)
  case (1 stack operators)
  then show ?case
    by (auto split: if_splits sum.splits dest: apply_operator_error)
qed

lemma while_operators_error: "while_operators st = Inl e \<Longrightarrow> e = IndexError"
proof (induction st rule: while_operators.induct)
  case (1 stack operators)
  then show ?case
    by (auto split: if_splits sum.splits dest: apply_operator_error)
qed

lemma while_precedence_error: "while_precedence token st = Inl e \<Longrightarrow> e \<noteq> TypeError"
proof (induction token st rule: while_precedence.induct)
  case (1 token stack operators)
  then show ?case
    by (auto split: if_splits sum.splits option.splits dest: apply_operator_error)
qed

lemma parse_token_error: "parse_token token st = Inl e \<Longrightarrow> e \<noteq> TypeError"
  by (auto simp: parse_token_def
      simp del: while_not_paren.simps while_precedence.simps
      split: prod.splits if_splits sum.splits
      dest: while_not_paren_error while_precedence_error pop_error)

lemma for_tokens_error: "for_tokens tokens st = Inl e \<Longrightarrow> e \<noteq> TypeError"
  by (induction tokens arbitrary: st) (auto split: sum.splits dest: parse_token_error)

lemma parse_error: "parse tokens = Inl e \<Longrightarrow> e \<noteq> TypeError"
  by (auto simp: parse_def split: sum.splits prod.splits list.splits
      dest: for_tokens_error while_operators_error)

section \<open>The claims\<close>

text \<open>
  C1. The precedence table gives NOT 3, AND 2 and OR 1, and for all terms \<open>a\<close>, \<open>b\<close>
  and \<open>c\<close> the query \<open>a b|c\<close> is parsed with the implicit AND grouped first: the
  root is the OR node, and on every index the search returns the postings of \<open>a\<close>
  intersected with those of \<open>b\<close>, united with the postings of \<open>c\<close>.
\<close>

theorem and_binds_tighter_than_or:
  assumes "is_term a" "is_term b" "is_term c"
  shows "precedence ''!'' = Some 3 \<and> precedence '' '' = Some 2 \<and> precedence ''|'' = Some 1 \<and>
    parse_query (a @ '' '' @ b @ ''|'' @ c) =
      Inr (BooleanNode ''|''
            (Some (BooleanNode '' '' (Some (BooleanNode a None None))
                                     (Some (BooleanNode b None None))))
            (Some (BooleanNode c None None))) \<and>
    run_query q (a @ '' '' @ b @ ''|'' @ c) index =
      Inr (q, SetV ((Index_get index a {} \<inter> Index_get index b {}) \<union> Index_get index c {}))"
proof -
  have ops: "is_operand a" "is_operand b" "is_operand c"
    using assms by (simp_all add: is_term_def)
  have p: "parse_query (a @ '' '' @ b @ ''|'' @ c) =
      Inr (BooleanNode ''|''
            (Some (BooleanNode '' '' (Some (BooleanNode a None None))
                                     (Some (BooleanNode b None None))))
            (Some (BooleanNode c None None)))"
    unfolding parse_query_def tokenize_a_b_or_c [OF assms] by (rule parse_a_b_or_c [OF ops])
  have e: "run_query q (a @ '' '' @ b @ ''|'' @ c) index =
      Inr (q, SetV ((Index_get index a {} \<inter> Index_get index b {}) \<union> Index_get index c {}))"
    unfolding run_query_def QueryTree_init_def p
    using ops by (simp add: search_def evaluate_simps)
  show ?thesis using p e by (simp add: precedence_def)
qed

theorem and_binds_tighter_than_or_witness:
  "is_term ''a'' \<and> is_term ''b'' \<and> is_term ''c'' \<and>
   run_query 1 ''a b|c''
     \<lparr>inverted_index = [''a'' \<mapsto> {1, 2}, ''b'' \<mapsto> {2, 3}, ''c'' \<mapsto> {4 :: nat}]\<rparr> =
   Inr (1, SetV {2, 4})"
proof -
  have t: "is_term ''a''" "is_term ''b''" "is_term ''c''"
    by (simp_all add: is_term_def is_operand_def isalnum_def char_isalnum_def)
  show ?thesis
    using t and_binds_tighter_than_or [OF t, of 1
      "\<lparr>inverted_index = [''a'' \<mapsto> {1, 2}, ''b'' \<mapsto> {2, 3}, ''c'' \<mapsto> {4 :: nat}]\<rparr>"]
    by (auto simp add: Index_get_def)
qed

text \<open>
  C2. A node with the value \<^verbatim>\<open>'!'\<close> evaluates to the union of all posting sets of
  the index it is given, minus the set its child evaluates to. Over an expression tree
  the child always evaluates to a set; and when the index holds no document, the node
  evaluates to the empty set, without an error.
\<close>

theorem not_is_universe_minus_child:
  "(\<forall>s. evaluate_tree l index = Inr (SetV s) \<longrightarrow>
      evaluate_tree (Some (BooleanNode ''!'' l r)) index =
        Inr (SetV (\<Union> (Index_values index) - s))) \<and>
   (expression_tree l \<longrightarrow>
      (\<exists>s. evaluate_tree l index = Inr (SetV s)) \<and>
      (\<Union> (Index_values index) = {} \<longrightarrow>
         evaluate_tree (Some (BooleanNode ''!'' l r)) index = Inr (SetV {})))"
proof -
  have a: "\<forall>s. evaluate_tree l index = Inr (SetV s) \<longrightarrow>
      evaluate_tree (Some (BooleanNode ''!'' l r)) index =
        Inr (SetV (\<Union> (Index_values index) - s))"
    by (simp add: evaluate_tree_not)
  have b: "expression_tree l \<Longrightarrow> \<exists>s. evaluate_tree l index = Inr (SetV s)"
    using evaluate_expression_tree [of l index] by blast
  have c: "expression_tree l \<Longrightarrow> \<Union> (Index_values index) = {} \<Longrightarrow>
      evaluate_tree (Some (BooleanNode ''!'' l r)) index = Inr (SetV {})"
  proof -
    assume "expression_tree l" and e: "\<Union> (Index_values index) = {}"
    then obtain s where "evaluate_tree l index = Inr (SetV s)" using b by blast
    with a have "evaluate_tree (Some (BooleanNode ''!'' l r)) index =
        Inr (SetV (\<Union> (Index_values index) - s))" by blast
    then show ?thesis by (simp only: e) simp
  qed
  show ?thesis using a b c by blast
qed

theorem not_is_universe_minus_child_witness:
  "evaluate_tree (Some (BooleanNode ''cat'' None None))
     \<lparr>inverted_index = [''cat'' \<mapsto> {1, 3}, ''dog'' \<mapsto> {2, 3}, ''fish'' \<mapsto> {4 :: nat}]\<rparr> =
     Inr (SetV {1, 3}) \<and>
   evaluate_tree (Some (BooleanNode ''!'' (Some (BooleanNode ''cat'' None None)) None))
     \<lparr>inverted_index = [''cat'' \<mapsto> {1, 3}, ''dog'' \<mapsto> {2, 3}, ''fish'' \<mapsto> {4 :: nat}]\<rparr> =
     Inr (SetV {2, 4}) \<and>
   expression_tree (Some (BooleanNode ''cat'' None None)) \<and>
   \<Union> (Index_values \<lparr>inverted_index = (Map.empty :: string \<rightharpoonup> nat set)\<rparr>) = {} \<and>
   evaluate_tree (Some (BooleanNode ''!'' (Some (BooleanNode ''cat'' None None)) None))
     \<lparr>inverted_index = (Map.empty :: string \<rightharpoonup> nat set)\<rparr> = Inr (SetV {})"
proof -
  have op: "is_operand ''cat''"
    by (simp add: is_operand_def isalnum_def char_isalnum_def)
  have e: "evaluate_tree (Some (BooleanNode ''cat'' None None))
     \<lparr>inverted_index = [''cat'' \<mapsto> {1, 3}, ''dog'' \<mapsto> {2, 3}, ''fish'' \<mapsto> {4 :: nat}]\<rparr> =
     Inr (SetV {1, 3})"
    using op by (simp add: evaluate_tree_operand Index_get_def)
  have u: "\<Union> (Index_values
     \<lparr>inverted_index = [''cat'' \<mapsto> {1, 3}, ''dog'' \<mapsto> {2, 3}, ''fish'' \<mapsto> {4 :: nat}]\<rparr>) - {1, 3} =
     {2, 4}"
    by (auto simp: Index_values_def)
  have t: "expression_tree (Some (BooleanNode ''cat'' None None))"
    using op by simp
  have z: "\<Union> (Index_values \<lparr>inverted_index = (Map.empty :: string \<rightharpoonup> nat set)\<rparr>) = {}"
    by (simp add: Index_values_def)
  show ?thesis
    using e u t z
      not_is_universe_minus_child [of "Some (BooleanNode ''cat'' None None)"
        "\<lparr>inverted_index = [''cat'' \<mapsto> {1, 3}, ''dog'' \<mapsto> {2, 3}, ''fish'' \<mapsto> {4 :: nat}]\<rparr>" None]
      not_is_universe_minus_child [of "Some (BooleanNode ''cat'' None None)"
        "\<lparr>inverted_index = (Map.empty :: string \<rightharpoonup> nat set)\<rparr>" None]
    by (metis (no_types, lifting))
qed

text \<open>
  C3. The query \<open>!!a\<close> does not parse: at the second \<^verbatim>\<open>'!'\<close> the loop of line 69
  finds the first \<^verbatim>\<open>'!'\<close> on the operator stack with a precedence that is not
  smaller, applies it while the operand stack is still empty, and \<^verbatim>\<open>stack.pop()\<close>
  raises IndexError. No tree of two nested NOT nodes is built and nothing is evaluated.
  With the inner negation in parentheses, \<open>!(!a)\<close>, the parser does build the two
  nested NOT nodes over the leaf.
\<close>

theorem double_negation_query_fails:
  "parse_query ''!!a'' = Inl IndexError \<and>
   run_query q ''!!a'' index = Inl IndexError \<and>
   parse_query ''!(!a)'' =
     Inr (BooleanNode ''!''
           (Some (BooleanNode ''!'' (Some (BooleanNode ''a'' None None)) None)) None)"
proof -
  have p: "parse_query ''!!a'' = Inl IndexError"
    by (simp add: parse_query_def tokenize_def parse_simps char_defs)
  have n: "parse_query ''!(!a)'' =
     Inr (BooleanNode ''!''
           (Some (BooleanNode ''!'' (Some (BooleanNode ''a'' None None)) None)) None)"
    by (simp add: parse_query_def tokenize_def parse_simps char_defs)
  show ?thesis using p n by (simp add: run_query_failed)
qed

text \<open>
  C4. Every space of a query becomes one AND token of its own: the tokens \<^verbatim>\<open>' '\<close> of
  a query are as many as its spaces, wherever they stand, so runs of spaces are not
  collapsed and a space at either end is not dropped. A single space between two terms
  \<open>a\<close> and \<open>b\<close> is exactly one implicit AND: the query parses to the AND node over
  the two leaves and evaluates to the intersection of their postings.
\<close>

theorem every_space_is_one_and_token:
  "length (filter (\<lambda>t. t = '' '') (tokenize query)) =
     length (filter (\<lambda>c. c = CHR '' '') query) \<and>
   (is_term a \<and> is_term b \<longrightarrow>
      tokenize (a @ '' '' @ b) = [a, '' '', b] \<and>
      parse_query (a @ '' '' @ b) =
        Inr (BooleanNode '' '' (Some (BooleanNode a None None))
                               (Some (BooleanNode b None None))) \<and>
      run_query q (a @ '' '' @ b) index =
        Inr (q, SetV (Index_get index a {} \<inter> Index_get index b {})))"
proof -
  have r: "is_term a \<Longrightarrow> is_term b \<Longrightarrow> tokenize (a @ '' '' @ b) = [a, '' '', b] \<and>
      parse_query (a @ '' '' @ b) =
        Inr (BooleanNode '' '' (Some (BooleanNode a None None))
                               (Some (BooleanNode b None None))) \<and>
      run_query q (a @ '' '' @ b) index =
        Inr (q, SetV (Index_get index a {} \<inter> Index_get index b {}))"
  proof -
    assume t: "is_term a" "is_term b"
    have "tokenize_loop (a @ '' '' @ b) [] [] = ([a, '' ''], b)"
      using t by (simp add: tokenize_simps del: tokenize_loop.simps(2))
    then have k: "tokenize (a @ '' '' @ b) = [a, '' '', b]"
      using t by (simp add: tokenize_def is_term_nonempty)
    have e: "evaluate_tree (Some (BooleanNode '' '' (Some (BooleanNode a None None))
                               (Some (BooleanNode b None None)))) index =
          Inr (SetV (Index_get index a {} \<inter> Index_get index b {}))"
      using t by (simp add: evaluate_simps is_term_operand)
    show ?thesis
      using k parse_query_and [OF t] run_query_found [OF parse_query_and [OF t] e, of q]
      by simp
  qed
  show ?thesis
    using tokenize_spaces [of query] r by blast
qed

theorem every_space_is_one_and_token_witness:
  "length (filter (\<lambda>t. t = '' '') (tokenize '' a  b '')) = 4 \<and>
   is_term ''a'' \<and> is_term ''b'' \<and>
   tokenize ''a b'' = [''a'', '' '', ''b''] \<and>
   parse_query ''a b'' =
     Inr (BooleanNode '' '' (Some (BooleanNode ''a'' None None))
                            (Some (BooleanNode ''b'' None None))) \<and>
   run_query 1 ''a b'' \<lparr>inverted_index = [''a'' \<mapsto> {1, 2}, ''b'' \<mapsto> {2, 3 :: nat}]\<rparr> =
     Inr (1, SetV {2})"
proof -
  let ?I = "\<lparr>inverted_index = [''a'' \<mapsto> {1, 2}, ''b'' \<mapsto> {2, 3 :: nat}]\<rparr>"
  have t: "is_term ''a''" "is_term ''b''"
    by (simp_all add: is_term_def char_defs)
  have g: "Index_get ?I ''a'' {} \<inter> Index_get ?I ''b'' {} = {2}"
    by (simp add: Index_get_def)
  have n: "length (filter (\<lambda>c. c = CHR '' '') '' a  b '') = 4"
    by simp
  show ?thesis
    using t g n
      every_space_is_one_and_token [of "'' a  b ''" "''a''" "''b''" 1 ?I]
    by simp
qed

text \<open>
  The queries of the specification with a run of two spaces, and with a space at each
  end, do not parse like \<open>a b\<close>: both raise IndexError.
\<close>

theorem whitespace_runs_counterexample:
  "parse_query ''a b'' =
     Inr (BooleanNode '' '' (Some (BooleanNode ''a'' None None))
                            (Some (BooleanNode ''b'' None None))) \<and>
   parse_query ''a  b'' = Inl IndexError \<and>
   parse_query '' a b '' = Inl IndexError"
  by (simp add: parse_query_def tokenize_def parse_simps char_defs)

text \<open>
  C5. A maximal run \<open>t\<close> of characters other than the five of line 31 (nothing or one
  of the five before it, nothing or one of the five after it) is one token. When \<open>t\<close>
  is alphanumeric or contains an underscore, the parser pushes the leaf that holds
  exactly \<open>t\<close>, the query \<open>t\<close> parses to that leaf, and evaluating the leaf looks
  \<open>t\<close> up in the index, with the empty set for an absent key.
\<close>

theorem run_is_token_and_operand_is_leaf:
  assumes "t \<noteq> []" "list_all (\<lambda>c. c \<notin> specials) t"
    and "pre = [] \<or> last pre \<in> specials" "post = [] \<or> hd post \<in> specials"
  shows "tokenize (pre @ t @ post) = tokenize pre @ [t] @ tokenize post \<and>
    (is_operand t \<longrightarrow>
       parse_token t (stack, operators) =
         Inr (stack @ [BooleanNode t None None], operators) \<and>
       parse_query t = Inr (BooleanNode t None None) \<and>
       evaluate_tree (Some (BooleanNode t None None)) index =
         Inr (SetV (case inverted_index index t of None \<Rightarrow> {} | Some postings \<Rightarrow> postings)))"
proof -
  have a: "tokenize (pre @ t @ post) = tokenize pre @ [t] @ tokenize post"
    using assms by (rule tokenize_run)
  have "tokenize ([] @ t @ []) = tokenize [] @ [t] @ tokenize []"
    using assms(1,2) by (intro tokenize_run) simp_all
  then have k: "tokenize t = [t]"
    by (simp add: tokenize_def)
  have b: "is_operand t \<Longrightarrow> parse_query t = Inr (BooleanNode t None None)"
    by (simp add: parse_query_def k parse_simps)
  have c: "is_operand t \<Longrightarrow> evaluate_tree (Some (BooleanNode t None None)) index =
         Inr (SetV (case inverted_index index t of None \<Rightarrow> {} | Some postings \<Rightarrow> postings))"
    by (simp add: evaluate_tree_operand Index_get_def)
  show ?thesis
    using a b c by (simp add: parse_token_operand)
qed

theorem run_is_token_and_operand_is_leaf_witness:
  "tokenize ''!(a_b c)'' = [''!'', ''('', ''a_b'', '' '', ''c'', '')''] \<and>
   is_operand ''a_b'' \<and>
   parse_query ''a_b'' = Inr (BooleanNode ''a_b'' None None) \<and>
   evaluate_tree (Some (BooleanNode ''a_b'' None None))
     \<lparr>inverted_index = [''a_b'' \<mapsto> {5 :: nat}]\<rparr> = Inr (SetV {5})"
proof -
  have h: "''a_b'' \<noteq> []" "list_all (\<lambda>c. c \<notin> specials) ''a_b''"
    "''!('' = [] \<or> last ''!('' \<in> specials" "'' c)'' = [] \<or> hd '' c)'' \<in> specials"
    by simp_all
  have o: "is_operand ''a_b''"
    by (simp add: char_defs)
  have k: "tokenize ''!('' = [''!'', ''('']" "tokenize '' c)'' = ['' '', ''c'', '')'']"
    by (simp_all add: tokenize_def)
  show ?thesis
    using o k run_is_token_and_operand_is_leaf [OF h, of "[]" "[]"
        "\<lparr>inverted_index = [''a_b'' \<mapsto> {5 :: nat}]\<rparr>"]
    by simp
qed

text \<open>
  A run that is neither alphanumeric nor holds an underscore is still one token, but the
  parser takes it for an operator, and the evaluator does not look it up: the query
  \<open>a-b\<close> raises IndexError, and a leaf \<open>a-b\<close> evaluates to \<^verbatim>\<open>None\<close> even on an
  index that has the key.
\<close>

theorem run_without_alnum_or_underscore_counterexample:
  "tokenize ''a-b'' = [''a-b''] \<and>
   parse_query ''a-b'' = Inl IndexError \<and>
   evaluate_tree (Some (BooleanNode ''a-b'' None None))
     \<lparr>inverted_index = [''a-b'' \<mapsto> {5 :: nat}]\<rparr> = Inr NoneV"
  by (simp add: parse_query_def tokenize_def parse_simps parse_token_def char_defs
      evaluate_tree.simps)

text \<open>
  C6. The parser has no syntax error of its own. When building the query tree fails,
  the error is the IndexError of a list operation or the KeyError of the precedence
  lookup, and it is the same whatever the query id: the id is no part of it.
\<close>

theorem parser_fails_with_builtin_errors:
  assumes "QueryTree_init q query = Inl e"
  shows "(e = IndexError \<or> e = KeyError) \<and> QueryTree_init q' query = Inl e"
proof -
  from assms have p: "parse_query query = Inl e"
    by (simp add: QueryTree_init_def split: sum.splits)
  then have "e \<noteq> TypeError"
    unfolding parse_query_def by (rule parse_error)
  then have "e = IndexError \<or> e = KeyError"
    by (cases e) simp_all
  then show ?thesis
    using p by (simp add: QueryTree_init_def)
qed

theorem parser_fails_with_builtin_errors_witness:
  "QueryTree_init 7 ''a)'' = Inl IndexError \<and> QueryTree_init 8 ''a)'' = Inl IndexError \<and>
   QueryTree_init 7 ''!-'' = Inl KeyError \<and> QueryTree_init 8 ''!-'' = Inl KeyError"
proof -
  have a: "QueryTree_init 7 ''a)'' = Inl IndexError"
    by (simp add: QueryTree_init_def parse_query_def tokenize_def parse_simps char_defs)
  have b: "QueryTree_init 7 ''!-'' = Inl KeyError"
    by (simp add: QueryTree_init_def parse_query_def tokenize_def parse_simps parse_token_def
        char_defs)
  show ?thesis
    using a b parser_fails_with_builtin_errors [OF a, of 8]
      parser_fails_with_builtin_errors [OF b, of 8]
    by simp
qed

text \<open>
  Malformed queries: a trailing operator and an unmatched parenthesis raise IndexError,
  and a query with a trailing operator after a parenthesised term is parsed into a tree.
\<close>

theorem malformed_query_counterexample:
  "QueryTree_init 7 ''a|'' = Inl IndexError \<and>
   QueryTree_init 7 ''(a'' = Inl IndexError \<and>
   QueryTree_init 7 ''a(b) c|'' =
     Inr \<lparr>qid = 7,
          tree = BooleanNode ''|'' (Some (BooleanNode ''a'' None None))
                   (Some (BooleanNode '' '' (Some (BooleanNode ''b'' None None))
                                            (Some (BooleanNode ''c'' None None))))\<rparr>"
  by (simp add: QueryTree_init_def parse_query_def tokenize_def parse_simps char_defs)

text \<open>
  C7. De Morgan's laws over parsing and evaluation, for all terms \<open>a\<close> and \<open>b\<close> and
  every index, with the OR written without spaces around \<^verbatim>\<open>'|'\<close>: the queries
  \<open>!(a b)\<close> and \<open>!a|!b\<close> return the same set, the universe minus the intersection of
  the two posting sets, and the queries \<open>!(a|b)\<close> and \<open>!a !b\<close> return the same set,
  the universe minus their union.
\<close>

theorem de_morgan_without_spaces_at_or:
  assumes "is_term a" "is_term b"
  shows
    "run_query q (''!('' @ a @ '' '' @ b @ '')'') index =
       Inr (q, SetV (\<Union> (Index_values index) - (Index_get index a {} \<inter> Index_get index b {}))) \<and>
     run_query q (''!'' @ a @ ''|!'' @ b) index =
       run_query q (''!('' @ a @ '' '' @ b @ '')'') index \<and>
     run_query q (''!('' @ a @ ''|'' @ b @ '')'') index =
       Inr (q, SetV (\<Union> (Index_values index) - (Index_get index a {} \<union> Index_get index b {}))) \<and>
     run_query q (''!'' @ a @ '' !'' @ b) index =
       run_query q (''!('' @ a @ ''|'' @ b @ '')'') index"
proof -
  have ops: "is_operand a" "is_operand b"
    using assms by (simp_all add: is_term_operand)
  have l1: "run_query q (''!('' @ a @ '' '' @ b @ '')'') index =
       Inr (q, SetV (\<Union> (Index_values index) - (Index_get index a {} \<inter> Index_get index b {})))"
    unfolding run_query_def QueryTree_init_def parse_query_def tokenize_not_and [OF assms]
    using ops by (simp add: parse_simps search_def evaluate_simps)
  have r1: "run_query q (''!'' @ a @ ''|!'' @ b) index =
       Inr (q, SetV ((\<Union> (Index_values index) - Index_get index a {}) \<union>
                     (\<Union> (Index_values index) - Index_get index b {})))"
    unfolding run_query_def QueryTree_init_def parse_query_def tokenize_or_nots [OF assms]
    using ops by (simp add: parse_simps search_def evaluate_simps)
  have l2: "run_query q (''!('' @ a @ ''|'' @ b @ '')'') index =
       Inr (q, SetV (\<Union> (Index_values index) - (Index_get index a {} \<union> Index_get index b {})))"
    unfolding run_query_def QueryTree_init_def parse_query_def tokenize_not_or [OF assms]
    using ops by (simp add: parse_simps search_def evaluate_simps)
  have r2: "run_query q (''!'' @ a @ '' !'' @ b) index =
       Inr (q, SetV ((\<Union> (Index_values index) - Index_get index a {}) \<inter>
                     (\<Union> (Index_values index) - Index_get index b {})))"
    unfolding run_query_def QueryTree_init_def parse_query_def tokenize_and_nots [OF assms]
    using ops by (simp add: parse_simps search_def evaluate_simps)
  have s1: "\<And>U A B :: 'a set. (U - A) \<union> (U - B) = U - (A \<inter> B)" by blast
  have s2: "\<And>U A B :: 'a set. (U - A) \<inter> (U - B) = U - (A \<union> B)" by blast
  show ?thesis
    unfolding l1 r1 l2 r2 s1 s2 by simp
qed

theorem de_morgan_without_spaces_at_or_witness:
  "is_term ''a'' \<and> is_term ''b'' \<and>
   run_query 1 ''!(a b)'' \<lparr>inverted_index = [''a'' \<mapsto> {1, 2}, ''b'' \<mapsto> {2, 3 :: nat}]\<rparr> =
     Inr (1, SetV {1, 3}) \<and>
   run_query 1 ''!a|!b'' \<lparr>inverted_index = [''a'' \<mapsto> {1, 2}, ''b'' \<mapsto> {2, 3 :: nat}]\<rparr> =
     Inr (1, SetV {1, 3}) \<and>
   run_query 1 ''!(a|b)'' \<lparr>inverted_index = [''a'' \<mapsto> {1, 2}, ''b'' \<mapsto> {2, 3 :: nat}]\<rparr> =
     Inr (1, SetV {}) \<and>
   run_query 1 ''!a !b'' \<lparr>inverted_index = [''a'' \<mapsto> {1, 2}, ''b'' \<mapsto> {2, 3 :: nat}]\<rparr> =
     Inr (1, SetV {})"
proof -
  have t: "is_term ''a''" "is_term ''b''"
    by (simp_all add: is_term_def char_defs)
  have u: "\<Union> (Index_values \<lparr>inverted_index = [''a'' \<mapsto> {1, 2}, ''b'' \<mapsto> {2, 3 :: nat}]\<rparr>) =
    {1, 2, 3}"
    by (auto simp: Index_values_def)
  have g: "Index_get \<lparr>inverted_index = [''a'' \<mapsto> {1, 2}, ''b'' \<mapsto> {2, 3 :: nat}]\<rparr> ''a'' {} = {1, 2}"
    "Index_get \<lparr>inverted_index = [''a'' \<mapsto> {1, 2}, ''b'' \<mapsto> {2, 3 :: nat}]\<rparr> ''b'' {} = {2, 3}"
    by (simp_all add: Index_get_def)
  have d: "{1, 2, 3} - ({1, 2} \<inter> {2, 3 :: nat}) = {1, 3}" "{1, 2, 3} - ({1, 2} \<union> {2, 3 :: nat}) = {}"
    by auto
  show ?thesis
    using t de_morgan_without_spaces_at_or [OF t, of 1
      "\<lparr>inverted_index = [''a'' \<mapsto> {1, 2}, ''b'' \<mapsto> {2, 3 :: nat}]\<rparr>"]
    unfolding u g d by simp
qed

text \<open>
  With spaces around \<^verbatim>\<open>'|'\<close>, as the law is written in the specification, each space
  is an AND operator of its own: the query \<open>!a | !b\<close> raises IndexError, while
  \<open>!(a b)\<close> returns a set.
\<close>

theorem de_morgan_spaced_or_counterexample:
  "run_query 1 ''!(a b)'' \<lparr>inverted_index = [''a'' \<mapsto> {1, 2}, ''b'' \<mapsto> {2, 3 :: nat}]\<rparr> =
     Inr (1, SetV {1, 3}) \<and>
   run_query 1 ''!a | !b'' \<lparr>inverted_index = [''a'' \<mapsto> {1, 2}, ''b'' \<mapsto> {2, 3 :: nat}]\<rparr> =
     Inl IndexError"
proof -
  have p1: "parse_query ''!(a b)'' =
      Inr (BooleanNode ''!''
        (Some (BooleanNode '' '' (Some (BooleanNode ''a'' None None))
                                 (Some (BooleanNode ''b'' None None)))) None)"
    by (simp add: parse_query_def tokenize_def parse_simps char_defs)
  have p2: "parse_query ''!a | !b'' = Inl IndexError"
    by (simp add: parse_query_def tokenize_def parse_simps char_defs)
  let ?I = "\<lparr>inverted_index = [''a'' \<mapsto> {1, 2}, ''b'' \<mapsto> {2, 3 :: nat}]\<rparr>"
  have u: "\<Union> (Index_values ?I) = {1, 2, 3}"
    by (auto simp: Index_values_def)
  have g: "Index_get ?I ''a'' {} = {1, 2}" "Index_get ?I ''b'' {} = {2, 3}"
    by (simp_all add: Index_get_def)
  have d: "{1, 2, 3} - ({1, 2} \<inter> {2, 3 :: nat}) = {1, 3}"
    by auto
  have ops: "is_operand ''a''" "is_operand ''b''"
    by (simp_all add: char_defs)
  have "evaluate_tree (Some (BooleanNode ''!''
        (Some (BooleanNode '' '' (Some (BooleanNode ''a'' None None))
                                 (Some (BooleanNode ''b'' None None)))) None)) ?I =
      Inr (SetV (\<Union> (Index_values ?I) - (Index_get ?I ''a'' {} \<inter> Index_get ?I ''b'' {})))"
    using ops by (simp add: evaluate_simps)
  then have e: "evaluate_tree (Some (BooleanNode ''!''
        (Some (BooleanNode '' '' (Some (BooleanNode ''a'' None None))
                                 (Some (BooleanNode ''b'' None None)))) None)) ?I =
      Inr (SetV {1, 3})"
    unfolding u g d .
  show ?thesis
    using run_query_found [OF p1 e, of 1] run_query_failed [OF p2, of 1 ?I] by simp
qed

text \<open>
  C8. A term that passes the operand test (alphanumeric, or with an underscore) and is
  not a key of the index evaluates, as a leaf, to the empty set, with no error. Its
  conjunction with any expression tree is empty, whichever side it stands on; and so is
  the result of the query that joins it by a space to any other term, in either order,
  as in \<open>a missingterm\<close> on the index that only holds \<open>a\<close>.
\<close>

theorem absent_operand_term_is_empty:
  assumes "is_operand t" "inverted_index index t = None"
  shows "evaluate_tree (Some (BooleanNode t l r)) index = Inr (SetV {}) \<and>
    (expression_tree x \<longrightarrow>
       evaluate_tree (Some (BooleanNode '' '' x (Some (BooleanNode t l r)))) index =
         Inr (SetV {}) \<and>
       evaluate_tree (Some (BooleanNode '' '' (Some (BooleanNode t l r)) x)) index =
         Inr (SetV {})) \<and>
    (is_term t \<and> is_term a \<longrightarrow>
       run_query q (a @ '' '' @ t) index = Inr (q, SetV {}) \<and>
       run_query q (t @ '' '' @ a) index = Inr (q, SetV {}))"
proof -
  have leaf: "\<And>l r. evaluate_tree (Some (BooleanNode t l r)) index = Inr (SetV {})"
    using assms by (simp add: evaluate_tree_operand Index_get_def)
  have trees: "expression_tree x \<Longrightarrow>
       evaluate_tree (Some (BooleanNode '' '' x (Some (BooleanNode t l r)))) index =
         Inr (SetV {}) \<and>
       evaluate_tree (Some (BooleanNode '' '' (Some (BooleanNode t l r)) x)) index =
         Inr (SetV {})"
  proof -
    assume "expression_tree x"
    then obtain s where "evaluate_tree x index = Inr (SetV s)"
      using evaluate_expression_tree [of x index] by blast
    then show ?thesis by (simp add: evaluate_tree_and leaf)
  qed
  have queries: "is_term t \<Longrightarrow> is_term a \<Longrightarrow>
       run_query q (a @ '' '' @ t) index = Inr (q, SetV {}) \<and>
       run_query q (t @ '' '' @ a) index = Inr (q, SetV {})"
  proof -
    assume t: "is_term t" and a: "is_term a"
    have e1: "evaluate_tree (Some (BooleanNode '' '' (Some (BooleanNode a None None))
                (Some (BooleanNode t None None)))) index = Inr (SetV {})"
      using a by (simp add: evaluate_tree_and evaluate_tree_operand is_term_operand leaf)
    have e2: "evaluate_tree (Some (BooleanNode '' '' (Some (BooleanNode t None None))
                (Some (BooleanNode a None None)))) index = Inr (SetV {})"
      using a by (simp add: evaluate_tree_and evaluate_tree_operand is_term_operand leaf)
    show ?thesis
      using run_query_found [OF parse_query_and [OF a t] e1, of q]
        run_query_found [OF parse_query_and [OF t a] e2, of q]
      by simp
  qed
  show ?thesis using leaf trees queries by blast
qed

theorem absent_operand_term_is_empty_witness:
  "is_operand ''missingterm'' \<and> is_term ''missingterm'' \<and> is_term ''a'' \<and>
   inverted_index \<lparr>inverted_index = [''a'' \<mapsto> {1, 2 :: nat}]\<rparr> ''missingterm'' = None \<and>
   expression_tree (Some (BooleanNode ''a'' None None)) \<and>
   evaluate_tree (Some (BooleanNode ''a'' None None))
     \<lparr>inverted_index = [''a'' \<mapsto> {1, 2 :: nat}]\<rparr> = Inr (SetV {1, 2}) \<and>
   evaluate_tree (Some (BooleanNode ''missingterm'' None None))
     \<lparr>inverted_index = [''a'' \<mapsto> {1, 2 :: nat}]\<rparr> = Inr (SetV {}) \<and>
   evaluate_tree (Some (BooleanNode '' '' (Some (BooleanNode ''a'' None None))
                                          (Some (BooleanNode ''missingterm'' None None))))
     \<lparr>inverted_index = [''a'' \<mapsto> {1, 2 :: nat}]\<rparr> = Inr (SetV {}) \<and>
   evaluate_tree (Some (BooleanNode '' '' (Some (BooleanNode ''missingterm'' None None))
                                          (Some (BooleanNode ''a'' None None))))
     \<lparr>inverted_index = [''a'' \<mapsto> {1, 2 :: nat}]\<rparr> = Inr (SetV {}) \<and>
   run_query 1 ''a missingterm'' \<lparr>inverted_index = [''a'' \<mapsto> {1, 2 :: nat}]\<rparr> =
     Inr (1, SetV {}) \<and>
   run_query 1 ''missingterm a'' \<lparr>inverted_index = [''a'' \<mapsto> {1, 2 :: nat}]\<rparr> =
     Inr (1, SetV {})"
proof -
  let ?I = "\<lparr>inverted_index = [''a'' \<mapsto> {1, 2 :: nat}]\<rparr>"
  have o: "is_operand ''missingterm''" "is_operand ''a''"
    by (simp_all add: char_defs)
  have t: "is_term ''missingterm''" "is_term ''a''"
    by (simp_all add: is_term_def char_defs)
  have n: "inverted_index ?I ''missingterm'' = None"
    by simp
  have x: "expression_tree (Some (BooleanNode ''a'' None None))"
    using o by simp
  have e: "evaluate_tree (Some (BooleanNode ''a'' None None)) ?I = Inr (SetV {1, 2})"
    using o by (simp add: evaluate_tree_operand Index_get_def)
  show ?thesis
    using o t n x e
      absent_operand_term_is_empty [OF o(1) n, of None None
        "Some (BooleanNode ''a'' None None)" "''a''" 1]
    by simp
qed

text \<open>
  A term in the wider sense of a maximal run of characters, such as \<open>a-b\<close>, that is
  not a key of the index: the leaf that holds it is not looked up and evaluates to
  \<^verbatim>\<open>None\<close>, not to the empty set, and the query \<open>a a-b\<close> raises KeyError at the
  precedence lookup of line 70.
\<close>

theorem absent_run_outside_operand_test_counterexample:
  "tokenize ''a a-b'' = [''a'', '' '', ''a-b''] \<and>
   inverted_index \<lparr>inverted_index = [''a'' \<mapsto> {1, 2 :: nat}]\<rparr> ''a-b'' = None \<and>
   evaluate_tree (Some (BooleanNode ''a-b'' None None))
     \<lparr>inverted_index = [''a'' \<mapsto> {1, 2 :: nat}]\<rparr> = Inr NoneV \<and>
   run_query 1 ''a a-b'' \<lparr>inverted_index = [''a'' \<mapsto> {1, 2 :: nat}]\<rparr> = Inl KeyError"
proof -
  have k: "tokenize ''a a-b'' = [''a'', '' '', ''a-b'']"
    by (simp add: tokenize_def)
  have p: "parse_query ''a a-b'' = Inl KeyError"
    by (simp add: parse_query_def k parse_simps parse_token_def char_defs)
  have e: "evaluate_tree (Some (BooleanNode ''a-b'' None None))
     \<lparr>inverted_index = [''a'' \<mapsto> {1, 2 :: nat}]\<rparr> = Inr NoneV"
    by (simp add: evaluate_tree.simps char_defs)
  show ?thesis
    using k e run_query_failed [OF p, of 1 "\<lparr>inverted_index = [''a'' \<mapsto> {1, 2 :: nat}]\<rparr>"]
    by simp
qed

text \<open>
  C9. On every index, the evaluation of an expression tree (the \<^verbatim>\<open>None\<close> tree
  included) returns a set, and the set lies within the union of all posting sets of the
  index: no document id from outside the index appears in a result.
\<close>

theorem result_within_universe:
  assumes "expression_tree t"
  shows "\<exists>s. evaluate_tree t index = Inr (SetV s) \<and> s \<subseteq> \<Union> (Index_values index)"
  using assms by (rule evaluate_expression_tree)

theorem result_within_universe_witness:
  "expression_tree
     (Some (BooleanNode ''|'' (Some (BooleanNode ''cat'' None None))
        (Some (BooleanNode '' '' (Some (BooleanNode ''dog'' None None))
           (Some (BooleanNode ''!'' (Some (BooleanNode ''fish'' None None)) None)))))) \<and>
   (\<exists>s. evaluate_tree
     (Some (BooleanNode ''|'' (Some (BooleanNode ''cat'' None None))
        (Some (BooleanNode '' '' (Some (BooleanNode ''dog'' None None))
           (Some (BooleanNode ''!'' (Some (BooleanNode ''fish'' None None)) None))))))
     \<lparr>inverted_index = [''cat'' \<mapsto> {1, 3}, ''dog'' \<mapsto> {2, 3}, ''fish'' \<mapsto> {4 :: nat}]\<rparr>
       = Inr (SetV s) \<and>
     s \<subseteq> \<Union> (Index_values
       \<lparr>inverted_index = [''cat'' \<mapsto> {1, 3}, ''dog'' \<mapsto> {2, 3}, ''fish'' \<mapsto> {4 :: nat}]\<rparr>))"
proof -
  have h: "expression_tree
     (Some (BooleanNode ''|'' (Some (BooleanNode ''cat'' None None))
        (Some (BooleanNode '' '' (Some (BooleanNode ''dog'' None None))
           (Some (BooleanNode ''!'' (Some (BooleanNode ''fish'' None None)) None))))))"
    by (simp add: is_operand_def isalnum_def char_isalnum_def)
  show ?thesis
    using h result_within_universe [OF h] by blast
qed

text \<open>
  C10. The query \<open>a(b\<close>, with an unmatched \<^verbatim>\<open>'('\<close>, parses without an error: the
  loop at the end of the input applies the leftover \<^verbatim>\<open>'('\<close> as a binary operator, so
  the root is a node with the value \<^verbatim>\<open>'('\<close> over \<open>a\<close> and \<open>b\<close>. The evaluation of
  that node passes none of the tests of \<^verbatim>\<open>evaluate_tree\<close> and returns \<^verbatim>\<open>None\<close>, not
  a set.
\<close>

theorem unmatched_paren_parses_to_paren_node:
  "parse_query ''a(b'' =
     Inr (BooleanNode ''('' (Some (BooleanNode ''a'' None None))
                           (Some (BooleanNode ''b'' None None))) \<and>
   evaluate_tree (Some (BooleanNode ''('' (Some (BooleanNode ''a'' None None))
                                         (Some (BooleanNode ''b'' None None)))) index =
     Inr NoneV \<and>
   run_query q ''a(b'' index = Inr (q, NoneV)"
proof -
  have p: "parse_query ''a(b'' =
     Inr (BooleanNode ''('' (Some (BooleanNode ''a'' None None))
                           (Some (BooleanNode ''b'' None None)))"
    by (simp add: parse_query_def tokenize_def parse_simps char_defs)
  have e: "evaluate_tree (Some (BooleanNode ''('' (Some (BooleanNode ''a'' None None))
                                         (Some (BooleanNode ''b'' None None)))) index =
     Inr NoneV"
    by (simp add: evaluate_tree.simps char_defs)
  show ?thesis
    using p e run_query_found [OF p e, of q] by simp
qed

text \<open>
  The query \<open>a (b\<close> does not behave so: after the node \<^verbatim>\<open>'('\<close> is built, the AND of
  the space is applied to a stack of one element and raises IndexError.
\<close>

theorem unmatched_paren_after_space_counterexample:
  "parse_query ''a (b'' = Inl IndexError"
  by (simp add: parse_query_def tokenize_def parse_simps char_defs)

end
